theory Spec2Isabelle
  imports Complex_Main
begin

section \<open>Text primitives of the query router\<close>

text \<open>
  Queries are Python \<open>str\<close> values. They are modelled as \<open>string\<close> (a list of
  \<open>char\<close>), one \<open>char\<close> per code point, with the ASCII reading of the character
  classes that the source uses: \<open>[A-Z]\<close> and \<open>[a-z]\<close> of the regular expressions,
  \<open>\w\<close> behind \<open>\b\<close>, the white space of \<open>str.split()\<close> and the case mapping
  of \<open>str.lower()\<close>.

  The model covers ASCII text. From code point 128 on, Python knows further white
  space (\<open>U+0085\<close>, \<open>U+00A0\<close>), further letters and digits behind \<open>\b\<close>, and
  case mappings of \<open>str.lower()\<close> and \<open>str.upper()\<close>; such characters are read
  here as plain symbols.

  Python floats (binary64) are modelled by exact real numbers: the scores \<open>0.1\<close>,
  \<open>0.15\<close>, \<open>0.2\<close>, \<open>0.3\<close> are the fractions they denote, and sums and
  comparisons are exact. The single precision numbers of numpy and FAISS in
  \<open>retrieve_notes\<close> are rounded explicitly, see \<open>f32\<close> below.
\<close>

definition is_upper :: "char \<Rightarrow> bool" where
  "is_upper c = (65 \<le> (of_char c :: nat) \<and> (of_char c :: nat) \<le> 90)"

definition is_lower :: "char \<Rightarrow> bool" where
  "is_lower c = (97 \<le> (of_char c :: nat) \<and> (of_char c :: nat) \<le> 122)"

definition is_digit :: "char \<Rightarrow> bool" where
  "is_digit c = (48 \<le> (of_char c :: nat) \<and> (of_char c :: nat) \<le> 57)"

text \<open>\<open>\w\<close>: letters, digits and the underscore.\<close>

definition is_word :: "char \<Rightarrow> bool" where
  "is_word c = (is_upper c \<or> is_lower c \<or> is_digit c \<or> (of_char c :: nat) = 95)"

text \<open>
  The white space \<open>str.split()\<close> splits on: tab, line feed, vertical tab, form feed,
  carriage return, the four separators \<open>0x1c .. 0x1f\<close>, and the space.
\<close>

definition is_space :: "char \<Rightarrow> bool" where
  "is_space c = ((9 \<le> (of_char c :: nat) \<and> (of_char c :: nat) \<le> 13) \<or>
                 (28 \<le> (of_char c :: nat) \<and> (of_char c :: nat) \<le> 32))"

definition to_lower :: "char \<Rightarrow> char" where
  "to_lower c = (if is_upper c then char_of ((of_char c :: nat) + 32) else c)"

text \<open>\<open>query.lower()\<close>\<close>

definition py_lower :: "string \<Rightarrow> string" where
  "py_lower s = map to_lower s"

text \<open>\<open>s.startswith(p)\<close> and the substring test \<open>p in s\<close>.\<close>

fun starts_with :: "string \<Rightarrow> string \<Rightarrow> bool" where
  "starts_with s [] = True"
| "starts_with [] (p # ps) = False"
| "starts_with (c # cs) (p # ps) = (c = p \<and> starts_with cs ps)"

fun contains :: "string \<Rightarrow> string \<Rightarrow> bool" where
  "contains [] p = (p = [])"
| "contains (c # cs) p = (starts_with (c # cs) p \<or> contains cs p)"

text \<open>
  \<open>query.split()\<close>: the maximal runs of characters that are not white space, in
  order. \<open>split_acc cur s\<close> scans \<open>s\<close> with the token read so far in \<open>cur\<close>.
\<close>

fun split_acc :: "string \<Rightarrow> string \<Rightarrow> string list" where
  "split_acc cur [] = (if cur = [] then [] else [cur])"
| "split_acc cur (c # cs) =
     (if is_space c then (if cur = [] then split_acc [] cs else cur # split_acc [] cs)
      else split_acc (cur @ [c]) cs)"

definition py_split :: "string \<Rightarrow> string list" where
  "py_split s = split_acc [] s"

subsection \<open>The two regular expressions of the technical-terms factor\<close>

text \<open>
  \<open>re.search(r'[A-Z][a-z]+[A-Z]', query)\<close>. \<open>camel_at s\<close> matches the expression
  at the head of \<open>s\<close>: one upper-case letter, the longest run of lower-case letters
  (at least one), and an upper-case letter right after the run. \<open>re_search_camel\<close>
  tries every start position from the left, as \<open>re.search\<close> does.
\<close>

fun camel_at :: "string \<Rightarrow> bool" where
  "camel_at [] = False"
| "camel_at (c # cs) =
     (is_upper c \<and> takeWhile is_lower cs \<noteq> [] \<and>
      (case dropWhile is_lower cs of [] \<Rightarrow> False | d # ds \<Rightarrow> is_upper d))"

fun re_search_camel :: "string \<Rightarrow> bool" where
  "re_search_camel [] = False"
| "re_search_camel (c # cs) = (camel_at (c # cs) \<or> re_search_camel cs)"

text \<open>
  The words the expression \<open>[A-Z][a-z]+[A-Z]\<close> matches: an upper-case letter, one or
  more lower-case letters, an upper-case letter.
\<close>

definition camel_language :: "string \<Rightarrow> bool" where
  "camel_language w =
     (\<exists>u mid v. w = u # mid @ [v] \<and> is_upper u \<and> mid \<noteq> [] \<and>
        list_all is_lower mid \<and> is_upper v)"

text \<open>
  The pattern in the words of the specification, for comparison with the expression of
  the source: a run of lower-case letters, then an upper-case letter, then a lower-case
  letter. A text contains it exactly when three consecutive characters are a
  lower-case, an upper-case and a lower-case letter.
\<close>

fun spec_embedded_capital :: "string \<Rightarrow> bool" where
  "spec_embedded_capital (a # b # c # cs) =
     ((is_lower a \<and> is_upper b \<and> is_lower c) \<or> spec_embedded_capital (b # c # cs))"
| "spec_embedded_capital cs = False"

text \<open>
  \<open>re.search(r'\b[A-Z]{2,}\b', query)\<close>. \<open>acronym_at s\<close> matches
  \<open>[A-Z]{2,}\b\<close> at the head of \<open>s\<close>: the longest run of upper-case letters has at
  least two letters and ends at a word boundary (the end of the text, or a character
  that is not a word character). \<open>acronym_from pw s\<close> scans \<open>s\<close>; \<open>pw\<close> tells
  whether the character before \<open>s\<close> is a word character, so that a match starts only
  at a word boundary.
\<close>

definition acronym_at :: "string \<Rightarrow> bool" where
  "acronym_at s =
     (length (takeWhile is_upper s) \<ge> 2 \<and>
      (case dropWhile is_upper s of [] \<Rightarrow> True | d # ds \<Rightarrow> \<not> is_word d))"

fun acronym_from :: "bool \<Rightarrow> string \<Rightarrow> bool" where
  "acronym_from pw [] = False"
| "acronym_from pw (c # cs) = ((\<not> pw \<and> acronym_at (c # cs)) \<or> acronym_from (is_word c) cs)"

definition re_search_acronym :: "string \<Rightarrow> bool" where
  "re_search_acronym s = acronym_from False s"

section \<open>The RAG decision: \<open>MCPOrchestrator.should_use_rag\<close>\<close>

text \<open>\<open>self.exam_keywords\<close>, a set of twenty distinct strings.\<close>

definition exam_keywords :: "string list" where
  "exam_keywords =
     [''exam'', ''question'', ''quiz'', ''test'', ''assignment'',
      ''homework'', ''cat'', ''past paper'', ''previous'', ''mark'',
      ''define'', ''explain'', ''describe'', ''discuss'', ''analyze'',
      ''solve'', ''calculate'', ''write'', ''design'', ''implement'']"

definition context_words :: "string list" where
  "context_words = [''unit'', ''course'', ''year'', ''paper'']"

text \<open>Factor 1: the number of tokens of \<open>query.split()\<close>.\<close>

definition factor_length :: "string \<Rightarrow> real" where
  "factor_length query =
     (let query_length = length (py_split query)
      in if query_length > 10 then 2/10 else if query_length > 5 then 1/10 else 0)"

text \<open>Factor 2: how many exam keywords occur in the lower-cased query.\<close>

definition exam_keyword_count :: "string \<Rightarrow> nat" where
  "exam_keyword_count query =
     length (filter (\<lambda>kw. contains (py_lower query) kw) exam_keywords)"

definition factor_exam_keywords :: "string \<Rightarrow> real" where
  "factor_exam_keywords query =
     (if exam_keyword_count query > 0
      then min (3/10) (of_nat (exam_keyword_count query) * (1/10)) else 0)"

text \<open>Factor 3: the two technical patterns, each worth \<open>0.15\<close>.\<close>

definition factor_camel_case :: "string \<Rightarrow> real" where
  "factor_camel_case query = (if re_search_camel query then 15/100 else 0)"

definition factor_acronym :: "string \<Rightarrow> real" where
  "factor_acronym query = (if re_search_acronym query then 15/100 else 0)"

text \<open>Factor 4: a context word occurs in the lower-cased query.\<close>

definition factor_specificity :: "string \<Rightarrow> real" where
  "factor_specificity query =
     (if list_ex (\<lambda>word. contains (py_lower query) word) context_words then 2/10 else 0)"

text \<open>
  \<open>should_use_rag\<close> adds the factors to \<open>score\<close> in the order of the source, adds
  their budgets to \<open>max_score\<close>, and returns \<open>(use_rag, confidence)\<close>. The first
  argument is \<open>self.use_rag_threshold\<close>.
\<close>

definition should_use_rag :: "real \<Rightarrow> string \<Rightarrow> bool \<times> real" where
  "should_use_rag use_rag_threshold query =
     (let score = 0 + factor_length query + factor_exam_keywords query
                    + factor_camel_case query + factor_acronym query
                    + factor_specificity query;
          max_score = 0 + 2/10 + 3/10 + 3/10 + 2/10;
          confidence = (if max_score > 0 then score / max_score else 0);
          use_rag = (confidence \<ge> use_rag_threshold)
      in (use_rag, confidence))"

section \<open>Rendering the retrieved questions: \<open>MCPOrchestrator.format_context\<close>\<close>

text \<open>
  One metadata dict of the index, as \<open>EmbeddingGenerator.embed_questions\<close> builds it,
  with the two keys that retrieval adds. A key that may be absent (the source reads it
  with \<open>.get\<close> and a default) is an \<open>option\<close>. The values of \<open>unit\<close> and
  \<open>year\<close> are kept as the text that \<open>str\<close> gives for them.
\<close>

record doc =
  question :: "string option"
  unit :: "string option"
  year :: "string option"
  course :: "string option"
  source_file :: "string option"
  question_number :: "int option"
  similarity_score :: "real option"
  distance :: "real option"

text \<open>\<open>str(n)\<close> for an integer: its decimal digits, with a sign when negative.\<close>

definition digit_char :: "nat \<Rightarrow> char" where
  "digit_char n = char_of (48 + n mod 10)"

function str_nat :: "nat \<Rightarrow> string" where
  "str_nat n = (if n < 10 then [digit_char n] else str_nat (n div 10) @ [digit_char n])"
  by pat_completeness auto
termination
  by (relation "measure (\<lambda>n. n)") auto

declare str_nat.simps [simp del]

definition str_int :: "int \<Rightarrow> string" where
  "str_int k = (if k < 0 then CHR ''-'' # str_nat (nat (- k)) else str_nat (nat k))"

text \<open>\<open>sep.join(parts)\<close>\<close>

fun join :: "string \<Rightarrow> string list \<Rightarrow> string" where
  "join sep [] = []"
| "join sep [p] = p"
| "join sep (p # q # ps) = p @ sep @ join sep (q # ps)"

text \<open>
  The entry of question number \<open>i\<close>:
  \<^verbatim>\<open>f"\n[Q{i}] Unit: {unit}, Year: {year} (Relevance: {similarity:.2%})\n{question_text[:500]}"\<close>.
  The float formatter behind \<open>{similarity:.2%}\<close> is the parameter \<open>percent\<close>.
\<close>

definition format_entry :: "(real \<Rightarrow> string) \<Rightarrow> nat \<Rightarrow> doc \<Rightarrow> string" where
  "format_entry percent i q =
     (let question_text = (case question q of None \<Rightarrow> [] | Some t \<Rightarrow> t);
          unit_text = (case unit q of None \<Rightarrow> ''Unknown'' | Some u \<Rightarrow> u);
          year_text = (case year q of None \<Rightarrow> ''Unknown'' | Some y \<Rightarrow> y);
          similarity = (case similarity_score q of None \<Rightarrow> 0 | Some s \<Rightarrow> s)
      in ''\<newline>[Q'' @ str_nat i @ ''] Unit: '' @ unit_text @ '', Year: '' @ year_text @
         '' (Relevance: '' @ percent similarity @ '')\<newline>'' @ take 500 question_text)"

text \<open>The trailer appended when entry number \<open>i\<close> of \<open>n\<close> does not fit.\<close>

definition more_questions :: "nat \<Rightarrow> nat \<Rightarrow> string" where
  "more_questions n i =
     ''\<newline>... and '' @ str_int (int n - int i + 1) @ '' more questions''"

text \<open>
  The loop \<open>for i, q in enumerate(retrieved_questions, 1)\<close>: \<open>n\<close> is
  \<open>len(retrieved_questions)\<close>, \<open>i\<close> the number of the question at the head of the
  remaining list, \<open>total_length\<close> and \<open>context_parts\<close> the loop's variables.
\<close>

fun format_loop ::
  "(real \<Rightarrow> string) \<Rightarrow> nat \<Rightarrow> int \<Rightarrow> nat \<Rightarrow> doc list \<Rightarrow> nat \<Rightarrow> string list \<Rightarrow> string list" where
  "format_loop percent n max_context_length i [] total_length context_parts = context_parts"
| "format_loop percent n max_context_length i (q # qs) total_length context_parts =
     (let entry = format_entry percent i q
      in if int total_length + int (length entry) > max_context_length
         then context_parts @ [more_questions n i]
         else format_loop percent n max_context_length (i + 1) qs
                (total_length + length entry) (context_parts @ [entry]))"

definition context_header :: "string list" where
  "context_header = [''RELEVANT PAST PAPER QUESTIONS:'', replicate 50 (CHR ''-'')]"

definition format_context :: "(real \<Rightarrow> string) \<Rightarrow> doc list \<Rightarrow> int \<Rightarrow> string" where
  "format_context percent retrieved_questions max_context_length =
     (if retrieved_questions = [] then []
      else join ''\<newline>''
             (format_loop percent (length retrieved_questions) max_context_length 1
                retrieved_questions 0 context_header))"

text \<open>
  The entries of all the questions, numbered from 1, each rendered whole: what the loop
  would append if nothing overflowed.
\<close>

definition context_entries :: "(real \<Rightarrow> string) \<Rightarrow> doc list \<Rightarrow> string list" where
  "context_entries percent retrieved_questions =
     map (\<lambda>(i, q). format_entry percent i q) (enumerate 1 retrieved_questions)"

section \<open>The retrieval service: \<open>RAGSystem\<close>\<close>

text \<open>
  The exceptions that reach the \<open>try\<close> blocks of \<open>rag.py\<close>, as values: a failure of
  the embedding model, an assertion of the FAISS wrapper, a shape mismatch of
  \<open>np.dot\<close>, an index out of range, a missing list element, a file that cannot be
  written, and a file that cannot be parsed.
\<close>

datatype error =
  EncodeError | AssertionError | ValueError | IndexError | OSError | ParseError

subsection \<open>\<open>EmbeddingGenerator\<close>\<close>

text \<open>
  The sentence-transformer model is external: \<open>encode\<close> is \<open>self.model.encode\<close>,
  which returns a vector or raises. \<open>embed_text\<close> and \<open>similarity\<close> are the methods
  of \<open>embeddings.py\<close>.
\<close>

record embedding_generator =
  encode :: "string \<Rightarrow> error + real list"
  embedding_dim :: nat

definition embed_text :: "embedding_generator \<Rightarrow> string \<Rightarrow> error + real list" where
  "embed_text g text =
     (if text = [] then Inr (replicate (embedding_dim g) 0)
      else encode g (take 2000 text))"

definition l2_norm :: "real list \<Rightarrow> real" where
  "l2_norm v = sqrt (sum_list (map (\<lambda>x. x * x) v))"

text \<open>\<open>np.dot\<close> of two one-dimensional arrays; it raises when their lengths differ.\<close>

definition dot :: "real list \<Rightarrow> real list \<Rightarrow> error + real" where
  "dot a b =
     (if length a \<noteq> length b then Inl ValueError
      else Inr (sum_list (map (\<lambda>(x, y). x * y) (zip a b))))"

definition similarity :: "real list \<Rightarrow> real list \<Rightarrow> error + real" where
  "similarity embedding1 embedding2 =
     (let emb1 = map (\<lambda>x. x / (l2_norm embedding1 + 1 / 10 ^ 8)) embedding1;
          emb2 = map (\<lambda>x. x / (l2_norm embedding2 + 1 / 10 ^ 8)) embedding2
      in dot emb1 emb2)"

subsection \<open>The FAISS index \<open>IndexFlatL2\<close>\<close>

text \<open>
  A flat index holds its dimension and the vectors added so far, in insertion order.
  \<open>faiss_search ix x k\<close> is \<open>ix.search(x, k)\<close> for one query vector: the wrapper
  asserts that the dimension fits and that \<open>k > 0\<close>; the result is the pair
  \<open>(distances[0], indices[0])\<close>, each of length \<open>k\<close>, with the squared Euclidean
  distances in ascending order and, where the index holds fewer than \<open>k\<close> vectors,
  the label \<open>-1\<close> with the distance \<open>FLT_MAX\<close> in the remaining places. The
  distances are \<open>float32\<close> numbers: the model rounds the exact squared distance once.
\<close>

record flat_index =
  dimension :: nat
  vectors :: "real list list"


definition FLT_MAX :: real where
  "FLT_MAX = 340282346638528859811704183484516925440"

text \<open>
  Single precision. \<open>f32 x\<close> is the \<open>float32\<close> nearest to \<open>x\<close>, ties to the even
  significand. \<open>f32_ulp x\<close> is the spacing of the \<open>float32\<close> numbers around \<open>x\<close>:
  \<open>ulp_from\<close> starts at the top binade (spacing \<open>2^104\<close>) and halves the spacing
  until \<open>2^23\<close> spacings no longer exceed \<open>|x|\<close>, at most \<open>253\<close> times, down to
  the spacing \<open>2^-149\<close> of the lowest binade and the subnormal numbers. A magnitude
  that rounds beyond \<open>FLT_MAX\<close> is infinite in single precision; the reals have no
  infinity, and \<open>f32\<close> keeps the rounded real there.
\<close>

definition round_half_even :: "real \<Rightarrow> int" where
  "round_half_even y =
     (let r = \<lfloor>y\<rfloor>; frac = y - of_int r
      in if frac < 1/2 then r
         else if frac > 1/2 then r + 1
         else if even r then r else r + 1)"

fun ulp_from :: "nat \<Rightarrow> real \<Rightarrow> real \<Rightarrow> real" where
  "ulp_from 0 u ax = u"
| "ulp_from (Suc n) u ax = (if 2 ^ 23 * u \<le> ax then u else ulp_from n (u / 2) ax)"

definition f32_ulp :: "real \<Rightarrow> real" where
  "f32_ulp x = ulp_from 253 (2 ^ 104) \<bar>x\<bar>"

definition f32 :: "real \<Rightarrow> real" where
  "f32 x = (let u = f32_ulp x in of_int (round_half_even (x / u)) * u)"

definition l2_sqr :: "real list \<Rightarrow> real list \<Rightarrow> real" where
  "l2_sqr x y = sum_list (map (\<lambda>(a, b). (a - b) * (a - b)) (zip x y))"

definition faiss_search :: "flat_index \<Rightarrow> real list \<Rightarrow> int \<Rightarrow> error + (real list \<times> int list)" where
  "faiss_search ix x k =
     (if length x \<noteq> dimension ix then Inl AssertionError
      else if k \<le> 0 then Inl AssertionError
      else
        let scored = map (\<lambda>(i, v). (f32 (l2_sqr x v), int i)) (enumerate 0 (vectors ix));
            best = take (nat k) (sort_key fst scored);
            padding = replicate (nat k - length best) (FLT_MAX, - 1);
            found = best @ padding
        in Inr (map fst found, map snd found))"

subsection \<open>Python list access\<close>

text \<open>\<open>xs[i]\<close>: a negative index counts from the end; out of range raises.\<close>

definition py_get :: "'a list \<Rightarrow> int \<Rightarrow> error + 'a" where
  "py_get xs i =
     (if 0 \<le> i \<and> i < int (length xs) then Inr (xs ! nat i)
      else if - int (length xs) \<le> i \<and> i < 0 then Inr (xs ! nat (int (length xs) + i))
      else Inl IndexError)"

text \<open>\<open>xs.index(v)\<close>: the first position of \<open>v\<close>; raises when there is none.\<close>

fun py_index :: "'a list \<Rightarrow> 'a \<Rightarrow> error + nat" where
  "py_index [] v = Inl ValueError"
| "py_index (x # xs) v =
     (if x = v then Inr 0
      else (case py_index xs v of Inl e \<Rightarrow> Inl e | Inr j \<Rightarrow> Inr (Suc j)))"

text \<open>\<open>xs[:k]\<close>: a negative \<open>k\<close> leaves out the last \<open>-k\<close> elements.\<close>

definition py_slice_to :: "'a list \<Rightarrow> int \<Rightarrow> 'a list" where
  "py_slice_to xs k = (if 0 \<le> k then take (nat k) xs else take (nat (int (length xs) + k)) xs)"

subsection \<open>The service and \<open>retrieve_notes\<close>\<close>

text \<open>
  The fields of a \<open>RAGSystem\<close>. \<open>metadata\<close> is a Python list of dict objects; the
  dicts are distinct objects (\<open>embed_questions\<close> and \<open>json.load\<close> build a fresh dict
  for every entry), so a reference to a stored dict is its position in the list.
\<close>

record rag_system =
  embedding_generator :: embedding_generator
  faiss_index :: "flat_index option"
  metadata :: "doc list"
  topic_cache :: "string \<Rightarrow> doc list option"
  index_path :: string
  metadata_path :: string

text \<open>
  The loop \<open>for idx, similarity in zip(indices[0], similarities)\<close>, with \<open>sim\<close>
  for the loop variable \<open>similarity\<close>; \<open>results\<close> is the list built so far. Each
  result is a copy of the stored dict with the two keys \<open>similarity_score\<close> and
  \<open>distance\<close> set. \<open>similarity\<close> is a \<open>numpy.float32\<close> and
  \<open>similarity_threshold\<close> a Python float: numpy 2 makes the comparison
  \<open>similarity >= similarity_threshold\<close> in single precision, with the threshold
  rounded to \<open>float32\<close>. The score stored is \<open>float(similarity)\<close>, the same number.
\<close>

fun collect_results ::
  "doc list \<Rightarrow> real list \<Rightarrow> int list \<Rightarrow> real \<Rightarrow> (int \<times> real) list \<Rightarrow> doc list \<Rightarrow> error + doc list" where
  "collect_results md distances indices similarity_threshold [] results = Inr results"
| "collect_results md distances indices similarity_threshold ((idx, sim) # rest) results =
     (if idx < int (length md) \<and> sim \<ge> f32 similarity_threshold then
        (case py_get md idx of
           Inl e \<Rightarrow> Inl e
         | Inr m \<Rightarrow>
             (case py_index indices idx of
                Inl e \<Rightarrow> Inl e
              | Inr j \<Rightarrow>
                  (case py_get distances (int j) of
                     Inl e \<Rightarrow> Inl e
                   | Inr dst \<Rightarrow>
                       collect_results md distances indices similarity_threshold rest
                         (results @ [m\<lparr>similarity_score := Some sim,
                                       distance := Some dst\<rparr>]))))
      else collect_results md distances indices similarity_threshold rest results)"

text \<open>
  The body of the \<open>try\<close> block of \<open>retrieve_notes\<close>. The similarities
  \<open>1.0 / (1.0 + distances[0])\<close> are computed on a \<open>float32\<close> array: the sum and
  the quotient are each rounded to single precision.
\<close>

definition retrieve_notes_try ::
  "rag_system \<Rightarrow> flat_index \<Rightarrow> string \<Rightarrow> int \<Rightarrow> real \<Rightarrow> error + doc list" where
  "retrieve_notes_try self ix query top_k similarity_threshold =
     (case embed_text (embedding_generator self) query of
        Inl e \<Rightarrow> Inl e
      | Inr query_embedding \<Rightarrow>
          (case faiss_search ix query_embedding top_k of
             Inl e \<Rightarrow> Inl e
           | Inr (distances, indices) \<Rightarrow>
               (let similarities = map (\<lambda>d. f32 (1 / f32 (1 + d))) distances
                in collect_results (metadata self) distances indices similarity_threshold
                     (zip indices similarities) [])))"

text \<open>
  \<open>retrieve_notes\<close>: the guard on an index that is not initialised, then the
  \<open>try\<close> block, whose \<open>except Exception\<close> returns the empty list.
\<close>

definition retrieve_notes :: "rag_system \<Rightarrow> string \<Rightarrow> int \<Rightarrow> real \<Rightarrow> doc list" where
  "retrieve_notes self query top_k similarity_threshold =
     (case faiss_index self of
        None \<Rightarrow> []
      | Some ix \<Rightarrow>
          if metadata self = [] then []
          else (case retrieve_notes_try self ix query top_k similarity_threshold of
                  Inl e \<Rightarrow> []
                | Inr results \<Rightarrow> results))"

subsection \<open>\<open>retrieve_by_unit\<close>\<close>

definition to_upper :: "char \<Rightarrow> char" where
  "to_upper c = (if is_lower c then char_of ((of_char c :: nat) - 32) else c)"

definition py_upper :: "string \<Rightarrow> string" where
  "py_upper s = map to_upper s"

text \<open>
  The positions in \<open>self.metadata\<close> of the dicts that the list comprehension keeps:
  \<open>unit_questions\<close> holds references to these stored dicts, not copies.
\<close>

definition unit_positions :: "doc list \<Rightarrow> string \<Rightarrow> nat list" where
  "unit_positions md unit_code =
     filter (\<lambda>i. py_upper (case unit (md ! i) of None \<Rightarrow> [] | Some u \<Rightarrow> u) = py_upper unit_code)
       [0 ..< length md]"

text \<open>
  The loop \<open>for q in unit_questions\<close>: it embeds the question text again and assigns
  \<open>q["similarity_score"]\<close>, which writes into the stored dict. An exception leaves the
  loop with the dicts scored so far already changed.
\<close>

fun score_unit_questions ::
  "embedding_generator \<Rightarrow> real list \<Rightarrow> nat list \<Rightarrow> doc list \<Rightarrow> error option \<times> doc list" where
  "score_unit_questions g query_embedding [] md = (None, md)"
| "score_unit_questions g query_embedding (i # rest) md =
     (case embed_text g (case question (md ! i) of None \<Rightarrow> [] | Some t \<Rightarrow> t) of
        Inl e \<Rightarrow> (Some e, md)
      | Inr q_embedding \<Rightarrow>
          (case similarity query_embedding q_embedding of
             Inl e \<Rightarrow> (Some e, md)
           | Inr sim \<Rightarrow>
               score_unit_questions g query_embedding rest
                 (md[i := (md ! i)\<lparr>similarity_score := Some sim\<rparr>])))"

text \<open>The key of the descending sort: \<open>x.get("similarity_score", 0)\<close>.\<close>

definition sort_score :: "doc \<Rightarrow> real" where
  "sort_score x = (case similarity_score x of None \<Rightarrow> 0 | Some s \<Rightarrow> s)"

text \<open>
  \<open>retrieve_by_unit\<close> has no \<open>try\<close> block: the result is the returned list or the
  exception that reaches the caller, together with the service after the call.
  \<open>query\<close> is \<open>None\<close> or a string; the empty string counts as no query.
\<close>

definition retrieve_by_unit ::
  "rag_system \<Rightarrow> string \<Rightarrow> string option \<Rightarrow> int \<Rightarrow> (error + doc list) \<times> rag_system" where
  "retrieve_by_unit self unit_code query top_k =
     (let unit_questions = unit_positions (metadata self) unit_code
      in if unit_questions = [] then (Inr [], self)
         else
           (case query of
              None \<Rightarrow> (Inr (py_slice_to (map (\<lambda>i. metadata self ! i) unit_questions) top_k), self)
            | Some q \<Rightarrow>
                if q = [] then
                  (Inr (py_slice_to (map (\<lambda>i. metadata self ! i) unit_questions) top_k), self)
                else
                  (case embed_text (embedding_generator self) q of
                     Inl e \<Rightarrow> (Inl e, self)
                   | Inr query_embedding \<Rightarrow>
                       (case score_unit_questions (embedding_generator self) query_embedding
                               unit_questions (metadata self) of
                          (Some e, md) \<Rightarrow> (Inl e, self\<lparr>metadata := md\<rparr>)
                        | (None, md) \<Rightarrow>
                            (Inr (py_slice_to
                                    (sort_key (\<lambda>x. - sort_score x) (map (\<lambda>i. md ! i) unit_questions))
                                    top_k),
                             self\<lparr>metadata := md\<rparr>)))))"

subsection \<open>\<open>save_index\<close> and \<open>load_index\<close>\<close>

text \<open>
  The two artifacts on disk. A file holds what was written to it: what
  \<open>faiss.write_index\<close> wrote, or a JSON list of metadata dicts (\<open>json.dump\<close>).
  \<open>faiss.write_index\<close> accepts \<open>None\<close> and writes a file that holds no index;
  \<open>faiss.read_index\<close> returns \<open>None\<close> for such a file. Reading a file of the other
  kind raises. A path in \<open>read_only\<close> cannot be written.
\<close>

datatype file_content = FaissFile "flat_index option" | JsonFile "doc list"

record file_system =
  files :: "string \<Rightarrow> file_content option"
  read_only :: "string set"

definition write_file :: "file_system \<Rightarrow> string \<Rightarrow> file_content \<Rightarrow> error + file_system" where
  "write_file fs path content =
     (if path \<in> read_only fs then Inl OSError
      else Inr (fs\<lparr>files := (files fs)(path \<mapsto> content)\<rparr>))"

text \<open>
  \<open>save_index\<close>: the index file is written first, then the metadata file; any
  exception gives \<open>False\<close>, with what was already written left on disk. There is no
  test for an index that was never built: \<open>self.faiss_index\<close> is written as it is.
\<close>

definition save_index :: "rag_system \<Rightarrow> file_system \<Rightarrow> bool \<times> file_system" where
  "save_index self fs =
     (case write_file fs (index_path self) (FaissFile (faiss_index self)) of
        Inl e \<Rightarrow> (False, fs)
      | Inr fs1 \<Rightarrow>
          (case write_file fs1 (metadata_path self) (JsonFile (metadata self)) of
             Inl e \<Rightarrow> (False, fs1)
           | Inr fs2 \<Rightarrow> (True, fs2)))"

text \<open>
  \<open>load_index\<close>: \<open>False\<close> when the index file is missing; otherwise the index is
  read and assigned, and the metadata is read when its file exists. The last statement
  before \<open>return True\<close> logs \<open>self.faiss_index.ntotal\<close>, which raises when the file
  held no index. An exception gives \<open>False\<close>, with the fields assigned before it kept.
\<close>

definition load_index :: "rag_system \<Rightarrow> file_system \<Rightarrow> bool \<times> rag_system" where
  "load_index self fs =
     (case files fs (index_path self) of
        None \<Rightarrow> (False, self)
      | Some (JsonFile md) \<Rightarrow> (False, self)
      | Some (FaissFile read) \<Rightarrow>
          (let self1 = self\<lparr>faiss_index := read\<rparr>;
               loaded = (case files fs (metadata_path self) of
                           None \<Rightarrow> Inr self1
                         | Some (FaissFile other) \<Rightarrow> Inl ParseError
                         | Some (JsonFile md) \<Rightarrow> Inr (self1\<lparr>metadata := md\<rparr>))
           in case loaded of
                Inl e \<Rightarrow> (False, self1)
              | Inr self2 \<Rightarrow>
                  (case faiss_index self2 of
                     None \<Rightarrow> (False, self2)
                   | Some ix \<Rightarrow> (True, self2))))"

section \<open>Answering: \<open>answer_question\<close> and \<open>batch_answer_questions\<close>\<close>

text \<open>
  The fields of an \<open>MCPOrchestrator\<close>. The MCP client is external; \<open>'c\<close> is its
  state. Its method \<open>answer_question_with_context(prompt, context, mode)\<close> is the
  parameter \<open>ask\<close> below: it returns the answer, or \<open>None\<close> for no answer, and the
  client after the call.
\<close>

record 'c orchestrator =
  rag_system :: "rag_system option"
  mcp_client :: 'c
  use_rag_threshold :: real

definition answer_question ::
  "(real \<Rightarrow> string) \<Rightarrow> ('c \<Rightarrow> string \<Rightarrow> string option \<Rightarrow> string \<Rightarrow> string option \<times> 'c) \<Rightarrow>
   'c orchestrator \<Rightarrow> string \<Rightarrow> string \<Rightarrow> bool option \<Rightarrow> int \<Rightarrow> string option \<times> 'c orchestrator" where
  "answer_question percent ask self query mode use_rag top_k =
     (let use_rag1 = (case use_rag of
                        None \<Rightarrow> fst (should_use_rag (use_rag_threshold self) query)
                      | Some b \<Rightarrow> b);
          context =
            (if use_rag1 then
               (case rag_system self of
                  None \<Rightarrow> []
                | Some rag \<Rightarrow>
                    (let retrieved = retrieve_notes rag query top_k (3/10)
                     in if retrieved \<noteq> [] then format_context percent retrieved 2000 else []))
             else []);
          combined_query =
            (if context \<noteq> [] then context @ ''\<newline>\<newline>QUESTION:\<newline>'' @ query else query);
          (answer, client) =
            ask (mcp_client self) combined_query (if context \<noteq> [] then Some context else None) mode
      in (answer, self\<lparr>mcp_client := client\<rparr>))"

text \<open>
  The loop of \<open>batch_answer_questions\<close>: \<open>results[query] = answer\<close> for each query
  in order. A dict value may be \<open>None\<close>, so the dict maps a key to a
  \<open>string option\<close>.
\<close>

fun batch_loop ::
  "(real \<Rightarrow> string) \<Rightarrow> ('c \<Rightarrow> string \<Rightarrow> string option \<Rightarrow> string \<Rightarrow> string option \<times> 'c) \<Rightarrow>
   string \<Rightarrow> bool \<Rightarrow> 'c orchestrator \<Rightarrow> string list \<Rightarrow> (string \<Rightarrow> string option option) \<Rightarrow>
   (string \<Rightarrow> string option option) \<times> 'c orchestrator" where
  "batch_loop percent ask mode use_rag self [] results = (results, self)"
| "batch_loop percent ask mode use_rag self (query # rest) results =
     (case answer_question percent ask self query mode (Some use_rag) 3 of
        (answer, self1) \<Rightarrow>
          batch_loop percent ask mode use_rag self1 rest (results(query \<mapsto> answer)))"

definition batch_answer_questions ::
  "(real \<Rightarrow> string) \<Rightarrow> ('c \<Rightarrow> string \<Rightarrow> string option \<Rightarrow> string \<Rightarrow> string option \<times> 'c) \<Rightarrow>
   'c orchestrator \<Rightarrow> string list \<Rightarrow> string \<Rightarrow> bool \<Rightarrow>
   (string \<Rightarrow> string option option) \<times> 'c orchestrator" where
  "batch_answer_questions percent ask self queries mode use_rag =
     batch_loop percent ask mode use_rag self queries Map.empty"

text \<open>
  The answers of the calls of \<open>answer_question\<close> that the loop makes, in the order of
  the queries: the \<open>i\<close>-th element is the answer produced for the \<open>i\<close>-th query.
\<close>

fun answers_in_order ::
  "(real \<Rightarrow> string) \<Rightarrow> ('c \<Rightarrow> string \<Rightarrow> string option \<Rightarrow> string \<Rightarrow> string option \<times> 'c) \<Rightarrow>
   string \<Rightarrow> bool \<Rightarrow> 'c orchestrator \<Rightarrow> string list \<Rightarrow> string option list" where
  "answers_in_order percent ask mode use_rag self [] = []"
| "answers_in_order percent ask mode use_rag self (query # rest) =
     (case answer_question percent ask self query mode (Some use_rag) 3 of
        (answer, self1) \<Rightarrow> answer # answers_in_order percent ask mode use_rag self1 rest)"

section \<open>Example values\<close>

text \<open>
  A small service for the evaluations below: an embedding model that maps a text to
  the vector \<open>[1, len(text)]\<close>, one that always raises, and an index over two
  questions with the vectors the first model gives them.
\<close>

definition example_generator :: embedding_generator where
  "example_generator = \<lparr>encode = (\<lambda>t. Inr [1, of_nat (length t)]), embedding_dim = 2\<rparr>"

definition failing_generator :: embedding_generator where
  "failing_generator = \<lparr>encode = (\<lambda>t. Inl EncodeError), embedding_dim = 2\<rparr>"

definition example_doc :: "string \<Rightarrow> string \<Rightarrow> doc" where
  "example_doc u q =
     \<lparr>question = Some q, unit = Some u, year = Some ''2019'', course = Some ''BBIT'',
      source_file = Some ''paper.pdf'', question_number = Some 1,
      similarity_score = None, distance = None\<rparr>"

definition example_service :: rag_system where
  "example_service =
     \<lparr>embedding_generator = example_generator,
      faiss_index = Some \<lparr>dimension = 2, vectors = [[1, 3], [1, 10]]\<rparr>,
      metadata = [example_doc ''BBIT106'' ''abc'', example_doc ''BBIT107'' ''abcdefghij''],
      topic_cache = Map.empty,
      index_path = ''data/rag_index.faiss'',
      metadata_path = ''data/rag_metadata.json''\<rparr>"

text \<open>The same service with the failing model, and a service just constructed.\<close>

definition failing_service :: rag_system where
  "failing_service = example_service\<lparr>embedding_generator := failing_generator\<rparr>"

definition new_service :: rag_system where
  "new_service = example_service\<lparr>faiss_index := None, metadata := []\<rparr>"

definition empty_disk :: file_system where
  "empty_disk = \<lparr>files = Map.empty, read_only = {}\<rparr>"

text \<open>
  An orchestrator over the example service, with a client that counts its calls and
  answers the \<open>n\<close>-th call (from 0) with the decimal digits of \<open>n\<close>; and a float
  formatter that always prints \<open>87.50%\<close>.
\<close>

definition counting_ask :: "nat \<Rightarrow> string \<Rightarrow> string option \<Rightarrow> string \<Rightarrow> string option \<times> nat" where
  "counting_ask n prompt context mode = (Some (str_nat n), Suc n)"

definition example_orchestrator :: "nat orchestrator" where
  "example_orchestrator =
     \<lparr>rag_system = Some example_service, mcp_client = 0, use_rag_threshold = 1/2\<rparr>"

definition example_percent :: "real \<Rightarrow> string" where
  "example_percent x = ''87.50%''"

definition example_questions :: "doc list" where
  "example_questions =
     [example_doc ''BBIT106'' ''What is OOP?'', example_doc ''BBIT106'' ''Define a class.'',
      example_doc ''BBIT107'' ''Explain inheritance.'']"

section \<open>Properties of the text primitives\<close>

lemma starts_with_iff: "starts_with s p \<longleftrightarrow> (\<exists>b. s = p @ b)"
  by (induction s p rule: starts_with.induct) auto

lemma contains_iff: "contains s p \<longleftrightarrow> (\<exists>a b. s = a @ p @ b)"
proof (induction s)
  case Nil
  then show ?case by auto
next
  case (Cons c cs)
  show ?case
  proof
    assume "contains (c # cs) p"
    then consider "starts_with (c # cs) p" | "contains cs p" by auto
    then show "\<exists>a b. c # cs = a @ p @ b"
    proof cases
      case 1
      then obtain b where "c # cs = p @ b" by (auto simp: starts_with_iff)
      then have "c # cs = [] @ p @ b" by simp
      then show ?thesis by blast
    next
      case 2
      then obtain a b where "cs = a @ p @ b" using Cons.IH by blast
      then have "c # cs = (c # a) @ p @ b" by simp
      then show ?thesis by blast
    qed
  next
    assume "\<exists>a b. c # cs = a @ p @ b"
    then obtain a b where ab: "c # cs = a @ p @ b" by blast
    show "contains (c # cs) p"
    proof (cases a)
      case Nil
      with ab have "starts_with (c # cs) p" by (auto simp: starts_with_iff)
      then show ?thesis by simp
    next
      case (Cons x a')
      with ab have "cs = a' @ p @ b" by simp
      then have "contains cs p" using Cons.IH by blast
      then show ?thesis by simp
    qed
  qed
qed

lemma contains_extend: "contains s p \<Longrightarrow> contains (x @ s @ y) p"
proof -
  assume "contains s p"
  then obtain a b where "s = a @ p @ b" by (auto simp: contains_iff)
  then have "x @ s @ y = (x @ a) @ p @ (b @ y)" by simp
  then show ?thesis unfolding contains_iff by blast
qed

lemma split_acc_nonempty: "cur \<noteq> [] \<Longrightarrow> 1 \<le> length (split_acc cur s)"
  by (induction s arbitrary: cur) auto

lemma split_acc_append_le: "length (split_acc cur s) \<le> length (split_acc cur (s @ t))"
proof (induction s arbitrary: cur)
  case Nil
  then show ?case using split_acc_nonempty [of cur t] by auto
next
  case (Cons c cs)
  then show ?case by auto
qed

lemma split_acc_prepend_le:
  "is_space sp \<Longrightarrow> length (split_acc [] s) \<le> length (split_acc cur (t @ sp # s))"
  by (induction t arbitrary: cur) (auto intro: le_SucI)

lemma camel_at_iff:
  "camel_at s \<longleftrightarrow>
     (\<exists>u mid v post. s = u # mid @ v # post \<and> is_upper u \<and> mid \<noteq> [] \<and>
        list_all is_lower mid \<and> is_upper v)"
proof
  assume "camel_at s"
  then obtain c cs where s: "s = c # cs" by (cases s) auto
  with \<open>camel_at s\<close> obtain d ds where
    c: "is_upper c" and t: "takeWhile is_lower cs \<noteq> []" and
    d: "dropWhile is_lower cs = d # ds" and ud: "is_upper d"
    by (auto split: list.splits)
  have "cs = takeWhile is_lower cs @ d # ds"
    using d takeWhile_dropWhile_id [of is_lower cs] by simp
  moreover have "list_all is_lower (takeWhile is_lower cs)"
    by (simp add: list_all_iff) (meson set_takeWhileD)
  ultimately show "\<exists>u mid v post. s = u # mid @ v # post \<and> is_upper u \<and> mid \<noteq> [] \<and>
        list_all is_lower mid \<and> is_upper v"
    using s c t ud by blast
next
  assume "\<exists>u mid v post. s = u # mid @ v # post \<and> is_upper u \<and> mid \<noteq> [] \<and>
        list_all is_lower mid \<and> is_upper v"
  then obtain u mid v post where s: "s = u # mid @ v # post" and u: "is_upper u"
    and m: "mid \<noteq> []" and l: "list_all is_lower mid" and v: "is_upper v" by blast
  have nl: "\<not> is_lower v" using v by (auto simp: is_upper_def is_lower_def)
  have "takeWhile is_lower (mid @ v # post) = mid"
    using l nl by (simp add: list_all_iff takeWhile_append2)
  moreover have "dropWhile is_lower (mid @ v # post) = v # post"
    using l nl by (simp add: list_all_iff dropWhile_append2)
  ultimately show "camel_at s" using s u m v by simp
qed

lemma re_search_camel_iff:
  "re_search_camel s \<longleftrightarrow> (\<exists>pre w post. s = pre @ w @ post \<and> camel_language w)"
proof (induction s)
  case Nil
  then show ?case by (auto simp: camel_language_def)
next
  case (Cons c cs)
  show ?case
  proof
    assume "re_search_camel (c # cs)"
    then consider "camel_at (c # cs)" | "re_search_camel cs" by auto
    then show "\<exists>pre w post. c # cs = pre @ w @ post \<and> camel_language w"
    proof cases
      case 1
      then obtain u mid v post where "c # cs = u # mid @ v # post" "is_upper u" "mid \<noteq> []"
        "list_all is_lower mid" "is_upper v" unfolding camel_at_iff by blast
      then have "c # cs = [] @ (u # mid @ [v]) @ post \<and> camel_language (u # mid @ [v])"
        by (auto simp: camel_language_def)
      then show ?thesis by blast
    next
      case 2
      then obtain pre w post where "cs = pre @ w @ post" "camel_language w"
        using Cons.IH by blast
      then have "c # cs = (c # pre) @ w @ post \<and> camel_language w" by simp
      then show ?thesis by blast
    qed
  next
    assume "\<exists>pre w post. c # cs = pre @ w @ post \<and> camel_language w"
    then obtain pre w post where e: "c # cs = pre @ w @ post" and w: "camel_language w" by blast
    show "re_search_camel (c # cs)"
    proof (cases pre)
      case Nil
      from w obtain u mid v where "w = u # mid @ [v]" "is_upper u" "mid \<noteq> []"
        "list_all is_lower mid" "is_upper v" unfolding camel_language_def by blast
      with e Nil have "c # cs = u # mid @ v # post \<and> is_upper u \<and> mid \<noteq> [] \<and>
        list_all is_lower mid \<and> is_upper v" by simp
      then have "camel_at (c # cs)" unfolding camel_at_iff by blast
      then show ?thesis by simp
    next
      case (Cons x pre')
      with e have "cs = pre' @ w @ post" by simp
      with w have "re_search_camel cs" using Cons.IH by blast
      then show ?thesis by simp
    qed
  qed
qed

lemma re_search_camel_extend: "re_search_camel s \<Longrightarrow> re_search_camel (x @ s @ y)"
proof -
  assume "re_search_camel s"
  then obtain pre w post where "s = pre @ w @ post" "camel_language w"
    unfolding re_search_camel_iff by blast
  then have "x @ s @ y = (x @ pre) @ w @ (post @ y) \<and> camel_language w" by simp
  then show ?thesis unfolding re_search_camel_iff by blast
qed

lemma acronym_at_append:
  assumes "acronym_at s" "\<not> is_word sp"
  shows "acronym_at (s @ sp # t)"
proof -
  have nu: "\<not> is_upper sp" using assms(2) by (simp add: is_word_def)
  show ?thesis
  proof (cases "dropWhile is_upper s")
    case Nil
    then have all: "\<forall>x\<in>set s. is_upper x" by (simp add: dropWhile_eq_Nil_conv)
    then have tw: "takeWhile is_upper (s @ sp # t) = s"
      and dw: "dropWhile is_upper (s @ sp # t) = sp # t"
      using nu by (simp_all add: takeWhile_append2 dropWhile_append2)
    have ts: "takeWhile is_upper s = s" using all by simp
    have "2 \<le> length s" using assms(1) ts by (simp add: acronym_at_def)
    then show ?thesis using assms(2) unfolding acronym_at_def tw dw by simp
  next
    case (Cons d ds)
    then have "d \<in> set s" "\<not> is_upper d"
      by (metis list.set_intros(1) set_dropWhileD, metis hd_dropWhile list.sel(1) list.simps(3))
    then have "takeWhile is_upper (s @ sp # t) = takeWhile is_upper s"
      "dropWhile is_upper (s @ sp # t) = dropWhile is_upper s @ sp # t"
      by (simp_all add: takeWhile_append1 dropWhile_append1)
    then show ?thesis using assms Cons by (simp add: acronym_at_def)
  qed
qed

lemma acronym_from_append:
  "acronym_from pw s \<Longrightarrow> \<not> is_word sp \<Longrightarrow> acronym_from pw (s @ sp # t)"
proof (induction s arbitrary: pw)
  case Nil
  then show ?case by simp
next
  case (Cons c cs)
  then show ?case using acronym_at_append [of "c # cs" sp t] by auto
qed

lemma acronym_from_prepend:
  "acronym_from False s \<Longrightarrow> \<not> is_word sp \<Longrightarrow> acronym_from pw (t @ sp # s)"
  by (induction t arbitrary: pw) auto

lemma space_char: "is_space (CHR '' '')" "\<not> is_word (CHR '' '')"
  by (simp_all add: is_space_def is_word_def is_upper_def is_lower_def is_digit_def)

section \<open>Properties of \<open>should_use_rag\<close>\<close>

text \<open>
  Adding text at the end of a query behind a space, or in front of it before a space,
  lowers none of the five factors.
\<close>

lemma factor_length_mono:
  assumes "length (py_split q) \<le> length (py_split q')"
  shows "factor_length q \<le> factor_length q'"
  using assms by (auto simp: factor_length_def Let_def)

lemma exam_keyword_count_mono:
  assumes "\<And>kw. contains (py_lower q) kw \<Longrightarrow> contains (py_lower q') kw"
  shows "exam_keyword_count q \<le> exam_keyword_count q'"
proof -
  have "length (filter (\<lambda>kw. contains (py_lower q) kw) ks)
          \<le> length (filter (\<lambda>kw. contains (py_lower q') kw) ks)" for ks
    using assms by (induction ks) auto
  then show ?thesis by (simp add: exam_keyword_count_def)
qed

lemma factor_exam_keywords_mono:
  assumes "exam_keyword_count q \<le> exam_keyword_count q'"
  shows "factor_exam_keywords q \<le> factor_exam_keywords q'"
proof -
  have "(of_nat (exam_keyword_count q) :: real) \<le> of_nat (exam_keyword_count q')"
    using assms by simp
  then show ?thesis using assms by (auto simp: factor_exam_keywords_def min_def)
qed

lemma factor_specificity_mono:
  assumes "\<And>kw. contains (py_lower q) kw \<Longrightarrow> contains (py_lower q') kw"
  shows "factor_specificity q \<le> factor_specificity q'"
  using assms by (auto simp: factor_specificity_def list_ex_iff)

lemma factor_camel_case_mono:
  assumes "re_search_camel q \<Longrightarrow> re_search_camel q'"
  shows "factor_camel_case q \<le> factor_camel_case q'"
  using assms by (auto simp: factor_camel_case_def)

lemma factor_acronym_mono:
  assumes "re_search_acronym q \<Longrightarrow> re_search_acronym q'"
  shows "factor_acronym q \<le> factor_acronym q'"
  using assms by (auto simp: factor_acronym_def)

lemma confidence_sum:
  "snd (should_use_rag t q) =
     factor_length q + factor_exam_keywords q + factor_camel_case q + factor_acronym q
       + factor_specificity q"
  by (simp add: should_use_rag_def Let_def)

lemma confidence_append_word:
  "snd (should_use_rag t q) \<le> snd (should_use_rag t (q @ CHR '' '' # w))"
proof -
  let ?q' = "q @ CHR '' '' # w"
  have c: "contains (py_lower q) kw \<Longrightarrow> contains (py_lower ?q') kw" for kw
    using contains_extend [of "py_lower q" kw "[]" "py_lower (CHR '' '' # w)"]
    by (simp add: py_lower_def)
  have "length (py_split q) \<le> length (py_split ?q')"
    unfolding py_split_def by (rule split_acc_append_le)
  then have 1: "factor_length q \<le> factor_length ?q'" by (rule factor_length_mono)
  have 2: "factor_exam_keywords q \<le> factor_exam_keywords ?q'"
    using c by (intro factor_exam_keywords_mono exam_keyword_count_mono)
  have 3: "factor_camel_case q \<le> factor_camel_case ?q'"
    using re_search_camel_extend [of q "[]" "CHR '' '' # w"]
    by (intro factor_camel_case_mono) simp
  have 4: "factor_acronym q \<le> factor_acronym ?q'"
    using acronym_from_append [of False q "CHR '' ''" w] space_char
    by (intro factor_acronym_mono) (simp add: re_search_acronym_def)
  have 5: "factor_specificity q \<le> factor_specificity ?q'"
    using c by (intro factor_specificity_mono)
  show ?thesis unfolding confidence_sum using 1 2 3 4 5 by linarith
qed

lemma confidence_prepend_word:
  "snd (should_use_rag t q) \<le> snd (should_use_rag t (w @ CHR '' '' # q))"
proof -
  let ?q' = "w @ CHR '' '' # q"
  have c: "contains (py_lower q) kw \<Longrightarrow> contains (py_lower ?q') kw" for kw
    using contains_extend [of "py_lower q" kw "py_lower (w @ [CHR '' ''])" "[]"]
    by (simp add: py_lower_def)
  have "length (py_split q) \<le> length (py_split ?q')"
    unfolding py_split_def using space_char(1) by (rule split_acc_prepend_le)
  then have 1: "factor_length q \<le> factor_length ?q'" by (rule factor_length_mono)
  have 2: "factor_exam_keywords q \<le> factor_exam_keywords ?q'"
    using c by (intro factor_exam_keywords_mono exam_keyword_count_mono)
  have 3: "factor_camel_case q \<le> factor_camel_case ?q'"
    using re_search_camel_extend [of q "w @ [CHR '' '']" "[]"]
    by (intro factor_camel_case_mono) simp
  have 4: "factor_acronym q \<le> factor_acronym ?q'"
    using acronym_from_prepend [of q "CHR '' ''" False w] space_char
    by (intro factor_acronym_mono) (simp add: re_search_acronym_def)
  have 5: "factor_specificity q \<le> factor_specificity ?q'"
    using c by (intro factor_specificity_mono)
  show ?thesis unfolding confidence_sum using 1 2 3 4 5 by linarith
qed

text \<open>
  C2, as the code computes it. The query
  \<open>"Define object-oriented programming and explain its principles"\<close> has seven
  tokens (length factor \<open>0.1\<close>), contains the two exam keywords \<open>define\<close> and
  \<open>explain\<close> (keyword factor \<open>0.2\<close>), matches neither technical pattern and
  contains no context word. With the default threshold \<open>0.5\<close>,
  \<open>should_use_rag\<close> returns the confidence \<open>0.3\<close> and the decision \<open>False\<close>.
\<close>

theorem should_use_rag_define_oop:
  "should_use_rag (1/2) ''Define object-oriented programming and explain its principles''
     = (False, 3/10)"
  by code_simp

text \<open>
  C2, as the specification states it, fails: for this query the confidence is not at
  least \<open>0.5\<close> and the decision is not \<open>True\<close>.
\<close>

theorem should_use_rag_define_oop_below_threshold:
  "\<not> (snd (should_use_rag (1/2)
             ''Define object-oriented programming and explain its principles'') \<ge> 1/2
      \<and> fst (should_use_rag (1/2)
             ''Define object-oriented programming and explain its principles'') = True)"
  by code_simp

text \<open>
  C5, as the code computes it. The first half of the technical-pattern factor is
  \<open>0.15\<close> or \<open>0\<close>, and it is \<open>0.15\<close> exactly when the query contains a word of
  the expression \<open>[A-Z][a-z]+[A-Z]\<close>: an upper-case letter, followed by one or more
  lower-case letters, followed by an upper-case letter.
\<close>

theorem factor_camel_case_iff:
  "(factor_camel_case query = 15/100 \<or> factor_camel_case query = 0) \<and>
   (factor_camel_case query = 15/100 \<longleftrightarrow>
      (\<exists>pre u mid v post. query = pre @ u # mid @ v # post \<and> is_upper u \<and> mid \<noteq> [] \<and>
         list_all is_lower mid \<and> is_upper v))"
proof -
  have "re_search_camel query \<longleftrightarrow>
      (\<exists>pre u mid v post. query = pre @ u # mid @ v # post \<and> is_upper u \<and> mid \<noteq> [] \<and>
         list_all is_lower mid \<and> is_upper v)"
    unfolding re_search_camel_iff camel_language_def
    by (metis append.assoc append_Cons append_Nil)
  then show ?thesis by (simp add: factor_camel_case_def)
qed

text \<open>
  C5, as the specification states it, fails: \<open>camelCase\<close> contains a lower-case run,
  an upper-case letter and a lower-case letter, and the factor is not \<open>0.15\<close> there.
\<close>

theorem factor_camel_case_not_spec_pattern:
  "\<not> (factor_camel_case ''camelCase'' = 15/100 \<longleftrightarrow> spec_embedded_capital ''camelCase'')"
  by (simp add: factor_camel_case_def is_upper_def is_lower_def)

text \<open>
  C6, as the code computes it. When a keyword of the exam vocabulary is added to a
  query as a word of its own, at the end behind a space or at the front before a
  space, the confidence does not decrease.
\<close>

theorem confidence_add_keyword:
  assumes "kw \<in> set exam_keywords"
  shows "snd (should_use_rag t query) \<le> snd (should_use_rag t (query @ '' '' @ kw)) \<and>
         snd (should_use_rag t query) \<le> snd (should_use_rag t (kw @ '' '' @ query))"
  using confidence_append_word [of t query kw] confidence_prepend_word [of t query kw]
  by simp

theorem confidence_add_keyword_witness:
  "''exam'' \<in> set exam_keywords \<and>
   snd (should_use_rag (1/2) ''What is OOP?'')
     \<le> snd (should_use_rag (1/2) (''What is OOP?'' @ '' '' @ ''exam'')) \<and>
   snd (should_use_rag (1/2) ''What is OOP?'')
     \<le> snd (should_use_rag (1/2) (''exam'' @ '' '' @ ''What is OOP?''))"
proof -
  have h: "''exam'' \<in> set exam_keywords" by (simp add: exam_keywords_def)
  show ?thesis using h confidence_add_keyword [OF h, of "1/2" "''What is OOP?''"] by blast
qed

text \<open>
  C6, as the specification states it, fails when the keyword is added inside the
  query: putting the keyword \<open>exam\<close> between the two words of \<open>past paper\<close> in
  \<open>exam past paper\<close> lowers the confidence from \<open>0.4\<close> to \<open>0.3\<close>.
\<close>

theorem confidence_add_keyword_inside:
  "''exam'' \<in> set exam_keywords \<and>
   snd (should_use_rag (1/2) (''exam past '' @ ''exam'' @ '' '' @ ''paper''))
     < snd (should_use_rag (1/2) (''exam past '' @ ''paper''))"
  by code_simp

section \<open>Properties of \<open>retrieve_notes\<close>\<close>





text \<open>When every pair fails the threshold test, the loop adds nothing.\<close>

lemma collect_results_all_below:
  assumes "sim < f32 thr"
  shows "collect_results md ds inds thr (replicate n (idx, sim)) acc = Inr acc"
  using assms by (induction n) auto

lemma faiss_search_empty:
  assumes "vectors ix = []" and "faiss_search ix x k = Inr (distances, indices)"
  shows "distances = replicate (nat k) FLT_MAX \<and> indices = replicate (nat k) (- 1)"
  using assms by (auto simp: faiss_search_def Let_def enumerate_eq_zip split: if_splits)

text \<open>
  The spacing that \<open>ulp_from\<close> finds: the \<open>k\<close>-th halving when \<open>ax\<close> lies in the
  binade of \<open>2^23\<close> such spacings, and the last one when \<open>ax\<close> lies below all of them.
\<close>

lemma ulp_from_hit:
  assumes "0 < u" "k \<le> n" "2 ^ 23 * (u / 2 ^ k) \<le> ax" "ax < 2 * (2 ^ 23 * (u / 2 ^ k))"
  shows "ulp_from n u ax = u / 2 ^ k"
  using assms
proof (induction n arbitrary: u k)
  case 0
  then show ?case by simp
next
  case (Suc n)
  show ?case
  proof (cases k)
    case 0
    with Suc.prems show ?thesis by simp
  next
    case (Suc k')
    have "u / 2 ^ k' \<le> u / 1"
      using Suc.prems(1) by (intro divide_left_mono) simp_all
    then have "2 ^ 23 * (u / 2 ^ k') \<le> 2 ^ 23 * u" by simp
    moreover have "2 * (2 ^ 23 * (u / 2 ^ k)) = 2 ^ 23 * (u / 2 ^ k')"
      using Suc by simp
    ultimately have "ax < 2 ^ 23 * u" using Suc.prems(4) by linarith
    then have "ulp_from (Suc n) u ax = ulp_from n (u / 2) ax" by simp
    also have "\<dots> = (u / 2) / 2 ^ k'"
      using Suc.prems Suc by (intro Suc.IH) (simp_all add: field_simps)
    finally show ?thesis using Suc by simp
  qed
qed

lemma ulp_from_low:
  assumes "0 < u" "ax < 2 ^ 23 * (u / 2 ^ n)"
  shows "ulp_from n u ax = u / 2 ^ n"
  using assms
proof (induction n arbitrary: u)
  case 0
  then show ?case by simp
next
  case (Suc n)
  have p: "(1::real) \<le> 2 ^ Suc n" by (rule one_le_power) simp
  have "u / 2 ^ Suc n \<le> u / 1"
    using Suc.prems(1) p by (intro divide_left_mono) simp_all
  then have "2 ^ 23 * (u / 2 ^ Suc n) \<le> 2 ^ 23 * u" by simp
  with Suc.prems(2) have "ax < 2 ^ 23 * u" by linarith
  then have "ulp_from (Suc n) u ax = ulp_from n (u / 2) ax" by simp
  also have "\<dots> = (u / 2) / 2 ^ n"
    using Suc.prems by (intro Suc.IH) (simp_all add: field_simps)
  finally show ?case by simp
qed

text \<open>
  Single precision values used below: the numbers of the example service, the
  thresholds \<open>0.3\<close> and \<open>0.02\<close>, and the similarity of a padding result.
\<close>

lemma f32_from_ulp: "f32_ulp x = u \<Longrightarrow> f32 x = of_int (round_half_even (x / u)) * u"
  by (simp add: f32_def Let_def)






lemma f32_three_tenths: "f32 (3 / 10) = 10066330 / 33554432"
proof -
  have u: "f32_ulp (3 / 10) = 2 ^ 104 / 2 ^ 129"
    unfolding f32_ulp_def by (rule ulp_from_hit) simp_all
  show ?thesis unfolding f32_from_ulp [OF u] by (simp add: round_half_even_def Let_def)
qed

lemma f32_padding_sum: "f32 (1 + FLT_MAX) = FLT_MAX"
proof -
  have u: "f32_ulp (1 + FLT_MAX) = 2 ^ 104 / 2 ^ 0"
    unfolding f32_ulp_def by (rule ulp_from_hit) (simp_all add: FLT_MAX_def)
  show ?thesis unfolding f32_from_ulp [OF u] by (simp add: round_half_even_def Let_def FLT_MAX_def)
qed

lemma f32_padding_quotient: "f32 (1 / FLT_MAX) = 1 / 2 ^ 128"
proof -
  have u: "f32_ulp (1 / FLT_MAX) = 2 ^ 104 / 2 ^ 253"
    unfolding f32_ulp_def by (rule ulp_from_low) (simp_all add: FLT_MAX_def)
  show ?thesis unfolding f32_from_ulp [OF u] by (simp add: round_half_even_def Let_def FLT_MAX_def)
qed

lemma padding_similarity: "f32 (1 / f32 (1 + FLT_MAX)) < f32 (3 / 10)"
  unfolding f32_padding_sum f32_padding_quotient f32_three_tenths by simp


lemma retrieve_notes_try_empty_index:
  assumes "vectors ix = []" and "retrieve_notes_try self ix query top_k (3/10) = Inr res"
  shows "res = []"
proof -
  from assms(2) obtain qe distances indices where
    s: "faiss_search ix qe top_k = Inr (distances, indices)" and
    c: "collect_results (metadata self) distances indices (3/10)
          (zip indices (map (\<lambda>d. f32 (1 / f32 (1 + d))) distances)) [] = Inr res"
    by (auto simp: retrieve_notes_try_def Let_def split: sum.splits prod.splits)
  from faiss_search_empty [OF assms(1) s]
  have "zip indices (map (\<lambda>d. f32 (1 / f32 (1 + d))) distances)
          = replicate (nat top_k) (- 1, f32 (1 / f32 (1 + FLT_MAX)))"
    by (simp add: zip_replicate)
  with c collect_results_all_below [OF padding_similarity] show ?thesis by simp
qed






text \<open>
  C9. On a service whose index was never built (\<open>faiss_index\<close> is \<open>None\<close>) or whose
  metadata list is empty, \<open>retrieve_notes\<close> returns the empty list for every query,
  \<open>top_k\<close> and threshold; on an index that holds no vector it returns the empty list
  for every query and \<open>top_k\<close> with the default threshold \<open>0.3\<close>. The result is a
  list in every case: no exception leaves \<open>retrieve_notes\<close>.
\<close>

theorem retrieve_notes_empty_index:
  "((faiss_index self = None \<or> metadata self = []) \<longrightarrow>
      retrieve_notes self query top_k similarity_threshold = []) \<and>
   ((\<exists>ix. faiss_index self = Some ix \<and> vectors ix = []) \<longrightarrow>
      retrieve_notes self query top_k (3/10) = [])"
proof (intro conjI impI)
  assume "faiss_index self = None \<or> metadata self = []"
  then show "retrieve_notes self query top_k similarity_threshold = []"
    by (auto simp: retrieve_notes_def split: option.splits)
next
  assume "\<exists>ix. faiss_index self = Some ix \<and> vectors ix = []"
  then obtain ix where ix: "faiss_index self = Some ix" "vectors ix = []" by blast
  show "retrieve_notes self query top_k (3/10) = []"
  proof (cases "retrieve_notes_try self ix query top_k (3/10)")
    case (Inl e)
    with ix show ?thesis by (simp add: retrieve_notes_def)
  next
    case (Inr res)
    with retrieve_notes_try_empty_index [OF ix(2) Inr] ix show ?thesis
      by (simp add: retrieve_notes_def)
  qed
qed

theorem retrieve_notes_empty_index_witness:
  "faiss_index new_service = None \<and>
   retrieve_notes new_service ''What is OOP?'' 5 (3/10) = [] \<and>
   faiss_index (example_service\<lparr>faiss_index := Some \<lparr>dimension = 2, vectors = []\<rparr>\<rparr>)
     = Some \<lparr>dimension = 2, vectors = []\<rparr> \<and>
   retrieve_notes (example_service\<lparr>faiss_index := Some \<lparr>dimension = 2, vectors = []\<rparr>\<rparr>)
     ''What is OOP?'' 5 (3/10) = []"
proof -
  have a: "faiss_index new_service = None"
    by (simp add: new_service_def)
  have b: "faiss_index (example_service\<lparr>faiss_index := Some \<lparr>dimension = 2, vectors = []\<rparr>\<rparr>)
             = Some \<lparr>dimension = 2, vectors = []\<rparr>"
    by simp
  show ?thesis
    using a b
      retrieve_notes_empty_index [of new_service "''What is OOP?''" 5 "3/10"]
      retrieve_notes_empty_index
        [of "example_service\<lparr>faiss_index := Some \<lparr>dimension = 2, vectors = []\<rparr>\<rparr>"
            "''What is OOP?''" 5 "3/10"]
    by simp
qed

section \<open>Properties of \<open>retrieve_by_unit\<close>\<close>

text \<open>Without a query, \<open>retrieve_by_unit\<close> returns a list and leaves the service as it is.\<close>

lemma retrieve_by_unit_no_query:
  "snd (retrieve_by_unit self unit_code None top_k) = self \<and>
   (\<exists>res. fst (retrieve_by_unit self unit_code None top_k) = Inr res)"
  by (simp add: retrieve_by_unit_def Let_def)

lemma example_positions:
  "unit_positions (metadata example_service) ''BBIT106'' = [0]"
  "unit_positions (metadata failing_service) ''BBIT106'' = [0]"
  unfolding example_service_def failing_service_def example_doc_def by code_simp+

text \<open>
  C4 at the failing input. With an embedding model that raises, a query-ranked
  \<open>retrieve_by_unit\<close> on a unit that has a question ends with the exception, where
  the claim says an empty list; \<open>retrieve_notes\<close> on the same service returns the
  empty list.
\<close>

theorem retrieve_by_unit_raises:
  "fst (retrieve_by_unit failing_service ''BBIT106'' (Some ''algorithms'') 2) = Inl EncodeError \<and>
   retrieve_notes failing_service ''algorithms'' 2 (3/10) = []"
proof -
  have e: "embed_text (embedding_generator failing_service) ''algorithms'' = Inl EncodeError"
    by (simp add: failing_service_def failing_generator_def embed_text_def)
  have a: "fst (retrieve_by_unit failing_service ''BBIT106'' (Some ''algorithms'') 2)
             = Inl EncodeError"
    using e by (simp add: retrieve_by_unit_def example_positions Let_def)
  have b: "retrieve_notes failing_service ''algorithms'' 2 (3/10) = []"
    using e by (simp add: retrieve_notes_def retrieve_notes_try_def failing_service_def
        example_service_def)
  from a b show ?thesis by blast
qed

text \<open>
  C7 at the failing input. A query-ranked \<open>retrieve_by_unit\<close> writes
  \<open>similarity_score\<close> into the stored dict of the matching question: before the call
  no stored dict has the key, after it the first one has.
\<close>

theorem retrieve_by_unit_changes_metadata:
  "map similarity_score (metadata example_service) = [None, None] \<and>
   (\<exists>s. map similarity_score
           (metadata (snd (retrieve_by_unit example_service ''BBIT106'' (Some ''algorithms'') 2)))
         = [Some s, None]) \<and>
   metadata (snd (retrieve_by_unit example_service ''BBIT106'' (Some ''algorithms'') 2))
     \<noteq> metadata example_service"
proof -
  have m: "metadata example_service
             = [example_doc ''BBIT106'' ''abc'', example_doc ''BBIT107'' ''abcdefghij'']"
    by (simp add: example_service_def)
  have g: "embedding_generator example_service = example_generator"
    by (simp add: example_service_def)
  have e: "embed_text example_generator ''algorithms'' = Inr [1, 10]"
    "embed_text example_generator ''abc'' = Inr [1, 3]"
    by (simp_all add: example_generator_def embed_text_def)
  obtain s where s: "similarity [1, 10] [1, 3] = Inr s"
    by (simp add: similarity_def dot_def Let_def)
  have q: "question (example_doc ''BBIT106'' ''abc'') = Some ''abc''"
    by (simp add: example_doc_def)
  have r: "metadata (snd (retrieve_by_unit example_service ''BBIT106'' (Some ''algorithms'') 2))
             = [(example_doc ''BBIT106'' ''abc'')\<lparr>similarity_score := Some s\<rparr>,
                example_doc ''BBIT107'' ''abcdefghij'']"
    using example_positions(1) e s q
    by (simp add: retrieve_by_unit_def Let_def m g)
  have 1: "map similarity_score (metadata example_service) = [None, None]"
    by (simp add: m example_doc_def)
  have 2: "map similarity_score
             (metadata (snd (retrieve_by_unit example_service ''BBIT106'' (Some ''algorithms'') 2)))
           = [Some s, None]"
    by (simp add: r example_doc_def)
  have 3: "metadata (snd (retrieve_by_unit example_service ''BBIT106'' (Some ''algorithms'') 2))
             \<noteq> metadata example_service"
    using 1 2 by auto
  from 2 have "\<exists>s. map similarity_score
           (metadata (snd (retrieve_by_unit example_service ''BBIT106'' (Some ''algorithms'') 2)))
         = [Some s, None]" ..
  with 1 3 show ?thesis by (intro conjI)
qed

section \<open>Properties of \<open>save_index\<close> and \<open>load_index\<close>\<close>




text \<open>
  A service that was never built saves with \<open>True\<close>, and the load that follows
  returns \<open>False\<close>.
\<close>

lemma save_load_unbuilt:
  "fst (save_index new_service empty_disk) = True \<and>
   fst (load_index new_service (snd (save_index new_service empty_disk))) = False"
  by (simp add: save_index_def load_index_def write_file_def new_service_def
      example_service_def empty_disk_def Let_def)

section \<open>Properties of \<open>format_context\<close>\<close>

text \<open>
  The loop appends the first \<open>k\<close> entries whole and in order, where \<open>k\<close> is the
  number of leading entries that fit, and then the trailer when an entry is left.
\<close>

lemma format_loop_prefix:
  "\<exists>k\<le>length qs.
     format_loop percent n mx i qs tot parts =
       parts @ take k (map (\<lambda>(j, q). format_entry percent j q) (enumerate i qs)) @
         (if k < length qs then [more_questions n (i + k)] else []) \<and>
     (\<forall>j<k. int tot + int (sum_list (map length
         (take (Suc j) (map (\<lambda>(j, q). format_entry percent j q) (enumerate i qs))))) \<le> mx) \<and>
     (k < length qs \<longrightarrow>
        int tot + int (sum_list (map length
         (take (Suc k) (map (\<lambda>(j, q). format_entry percent j q) (enumerate i qs))))) > mx)"
proof (induction qs arbitrary: i tot parts)
  case Nil
  then show ?case by simp
next
  case (Cons q qs)
  let ?e = "format_entry percent i q"
  let ?es = "map (\<lambda>(j, q). format_entry percent j q) (enumerate (Suc i) qs)"
  have es: "map (\<lambda>(j, q). format_entry percent j q) (enumerate i (q # qs)) = ?e # ?es"
    by simp
  show ?case
  proof (cases "int tot + int (length ?e) > mx")
    case True
    then have "format_loop percent n mx i (q # qs) tot parts = parts @ [more_questions n i]"
      by (simp add: Let_def)
    with True show ?thesis
      unfolding es by (intro exI [of _ 0]) simp
  next
    case False
    from Cons.IH [of "Suc i" "tot + length ?e" "parts @ [?e]"]
    obtain k where k: "k \<le> length qs"
      and r: "format_loop percent n mx (Suc i) qs (tot + length ?e) (parts @ [?e]) =
                (parts @ [?e]) @ take k ?es @
                  (if k < length qs then [more_questions n (Suc i + k)] else [])"
      and fit: "\<forall>j<k. int (tot + length ?e)
                  + int (sum_list (map length (take (Suc j) ?es))) \<le> mx"
      and over: "k < length qs \<longrightarrow>
                   int (tot + length ?e)
                     + int (sum_list (map length (take (Suc k) ?es))) > mx"
      by blast
    have 1: "format_loop percent n mx i (q # qs) tot parts =
               parts @ take (Suc k) (?e # ?es) @
                 (if Suc k < length (q # qs) then [more_questions n (i + Suc k)] else [])"
      using False r by (simp add: Let_def)
    have 2: "\<forall>j<Suc k. int tot
               + int (sum_list (map length (take (Suc j) (?e # ?es)))) \<le> mx"
    proof (intro allI impI)
      fix j assume j: "j < Suc k"
      show "int tot + int (sum_list (map length (take (Suc j) (?e # ?es)))) \<le> mx"
      proof (cases j)
        case 0
        with False show ?thesis by simp
      next
        case (Suc j')
        with j have "j' < k" by simp
        with fit have "int (tot + length ?e)
                  + int (sum_list (map length (take (Suc j') ?es))) \<le> mx" by blast
        with Suc show ?thesis by simp
      qed
    qed
    have 3: "Suc k < length (q # qs) \<longrightarrow>
               int tot + int (sum_list (map length (take (Suc (Suc k)) (?e # ?es)))) > mx"
      using over by (simp add: add.assoc)
    have "Suc k \<le> length (q # qs)" using k by simp
    with 1 2 3 show ?thesis unfolding es by blast
  qed
qed

lemma more_questions_count:
  assumes "k < n"
  shows "more_questions n (1 + k) = ''\<newline>... and '' @ str_nat (n - k) @ '' more questions''"
proof -
  have e: "int n - int (1 + k) + 1 = int (n - k)" using assms by simp
  show ?thesis unfolding more_questions_def e str_int_def by simp
qed

text \<open>
  C8. \<open>format_context\<close> returns the empty string for an empty list. Otherwise there is
  a number \<open>k\<close> of included questions such that the result is the header lines, the
  first \<open>k\<close> entries whole and in order, and, exactly when a question is left out, one
  trailer that gives the number of questions left out; every included entry kept the
  running length within \<open>max_context_length\<close>, and the first entry left out would have
  exceeded it.
\<close>

theorem format_context_whole_entries:
  "format_context percent [] max_context_length = [] \<and>
   (retrieved_questions \<noteq> [] \<longrightarrow>
      (\<exists>k\<le>length retrieved_questions.
         format_context percent retrieved_questions max_context_length =
           join ''\<newline>''
             (context_header @ take k (context_entries percent retrieved_questions) @
                (if k < length retrieved_questions
                 then [''\<newline>... and '' @ str_nat (length retrieved_questions - k)
                         @ '' more questions'']
                 else [])) \<and>
         (\<forall>j<k. int (sum_list (map length
             (take (Suc j) (context_entries percent retrieved_questions)))) \<le> max_context_length) \<and>
         (k < length retrieved_questions \<longrightarrow>
            int (sum_list (map length
              (take (Suc k) (context_entries percent retrieved_questions)))) > max_context_length)))"
proof (intro conjI impI)
  show "format_context percent [] max_context_length = []"
    by (simp add: format_context_def)
next
  assume ne: "retrieved_questions \<noteq> []"
  let ?n = "length retrieved_questions"
  let ?es = "context_entries percent retrieved_questions"
  from format_loop_prefix [of retrieved_questions percent ?n max_context_length 1 0 context_header]
  obtain k where k: "k \<le> ?n"
    and r: "format_loop percent ?n max_context_length 1 retrieved_questions 0 context_header =
              context_header @ take k ?es @ (if k < ?n then [more_questions ?n (1 + k)] else [])"
    and fit: "\<forall>j<k. int (sum_list (map length (take (Suc j) ?es))) \<le> max_context_length"
    and over: "k < ?n \<longrightarrow>
                 int (sum_list (map length (take (Suc k) ?es))) > max_context_length"
    unfolding context_entries_def by auto
  have "format_context percent retrieved_questions max_context_length =
          join ''\<newline>''
            (context_header @ take k ?es @
               (if k < ?n
                then [''\<newline>... and '' @ str_nat (?n - k) @ '' more questions'']
                else []))"
    using ne r more_questions_count [of k ?n] by (simp add: format_context_def)
  with k fit over
  show "\<exists>k\<le>?n.
         format_context percent retrieved_questions max_context_length =
           join ''\<newline>''
             (context_header @ take k ?es @
                (if k < ?n
                 then [''\<newline>... and '' @ str_nat (?n - k) @ '' more questions'']
                 else [])) \<and>
         (\<forall>j<k. int (sum_list (map length (take (Suc j) ?es))) \<le> max_context_length) \<and>
         (k < ?n \<longrightarrow>
            int (sum_list (map length (take (Suc k) ?es))) > max_context_length)"
    by (intro exI [of _ k] conjI)
qed

theorem format_context_whole_entries_witness:
  "example_questions \<noteq> [] \<and>
   format_context example_percent example_questions 150 =
     ''RELEVANT PAST PAPER QUESTIONS:\<newline>--------------------------------------------------\<newline>\<newline>[Q1] Unit: BBIT106, Year: 2019 (Relevance: 87.50%)\<newline>What is OOP?\<newline>\<newline>[Q2] Unit: BBIT106, Year: 2019 (Relevance: 87.50%)\<newline>Define a class.\<newline>\<newline>... and 1 more questions'' \<and>
   (\<exists>k\<le>length example_questions.
      format_context example_percent example_questions 150 =
        join ''\<newline>''
          (context_header @ take k (context_entries example_percent example_questions) @
             (if k < length example_questions
              then [''\<newline>... and '' @ str_nat (length example_questions - k)
                      @ '' more questions'']
              else [])) \<and>
      (\<forall>j<k. int (sum_list (map length
          (take (Suc j) (context_entries example_percent example_questions)))) \<le> 150) \<and>
      (k < length example_questions \<longrightarrow>
         int (sum_list (map length
           (take (Suc k) (context_entries example_percent example_questions)))) > 150))"
proof -
  have ne: "example_questions \<noteq> []" by (simp add: example_questions_def)
  have v: "format_context example_percent example_questions 150 =
     ''RELEVANT PAST PAPER QUESTIONS:\<newline>--------------------------------------------------\<newline>\<newline>[Q1] Unit: BBIT106, Year: 2019 (Relevance: 87.50%)\<newline>What is OOP?\<newline>\<newline>[Q2] Unit: BBIT106, Year: 2019 (Relevance: 87.50%)\<newline>Define a class.\<newline>\<newline>... and 1 more questions''"
    unfolding example_questions_def example_doc_def by code_simp
  note e = mp [OF format_context_whole_entries
                    [of example_percent 150 example_questions, THEN conjunct2] ne]
  show ?thesis by (rule conjI [OF ne conjI [OF v e]])
qed

section \<open>Properties of \<open>batch_answer_questions\<close>\<close>

lemma batch_loop_other:
  "q \<notin> set qs \<Longrightarrow> fst (batch_loop percent ask mode use_rag self qs results) q = results q"
  by (induction qs arbitrary: self results) (auto split: prod.splits)

lemma batch_loop_dom:
  "dom (fst (batch_loop percent ask mode use_rag self qs results)) = dom results \<union> set qs"
  by (induction qs arbitrary: self results) (auto split: prod.splits)

lemma batch_loop_last:
  "i < length qs \<Longrightarrow> qs ! i \<notin> set (drop (Suc i) qs) \<Longrightarrow>
   fst (batch_loop percent ask mode use_rag self qs results) (qs ! i) =
     Some (answers_in_order percent ask mode use_rag self qs ! i)"
proof (induction qs arbitrary: i self results)
  case Nil
  then show ?case by simp
next
  case (Cons q qs)
  obtain answer self1 where a: "answer_question percent ask self q mode (Some use_rag) 3
      = (answer, self1)" by (cases "answer_question percent ask self q mode (Some use_rag) 3")
  show ?case
  proof (cases i)
    case 0
    with Cons.prems have "q \<notin> set qs" by simp
    then have "fst (batch_loop percent ask mode use_rag self1 qs (results(q \<mapsto> answer))) q
                 = (results(q \<mapsto> answer)) q"
      by (rule batch_loop_other)
    with a 0 show ?thesis by simp
  next
    case (Suc j)
    with Cons.prems have "j < length qs" "qs ! j \<notin> set (drop (Suc j) qs)" by simp_all
    from Cons.IH [OF this] a Suc show ?thesis by simp
  qed
qed

text \<open>
  C10. The dict that \<open>batch_answer_questions\<close> returns has exactly the distinct
  queries as its keys, and under a query it holds the answer that the call for the
  last occurrence of that query produced.
\<close>

theorem batch_answer_questions_last_wins:
  "dom (fst (batch_answer_questions percent ask self queries mode use_rag)) = set queries \<and>
   card (dom (fst (batch_answer_questions percent ask self queries mode use_rag)))
     = length (remdups queries) \<and>
   (\<forall>i<length queries. queries ! i \<notin> set (drop (Suc i) queries) \<longrightarrow>
      fst (batch_answer_questions percent ask self queries mode use_rag) (queries ! i) =
        Some (answers_in_order percent ask mode use_rag self queries ! i))"
proof -
  have d: "dom (fst (batch_answer_questions percent ask self queries mode use_rag)) = set queries"
    by (simp add: batch_answer_questions_def batch_loop_dom)
  then have "card (dom (fst (batch_answer_questions percent ask self queries mode use_rag)))
               = length (remdups queries)"
    by (simp add: length_remdups_card_conv)
  with d show ?thesis
    by (simp add: batch_answer_questions_def batch_loop_last)
qed

lemma counted_digits:
  "str_nat 0 = ''0''" "str_nat (Suc 0) = ''1''" "str_nat (Suc (Suc 0)) = ''2''"
  by code_simp+

theorem batch_answer_questions_last_wins_witness:
  "(2::nat) < length [''A'', ''B'', ''A''] \<and>
   [''A'', ''B'', ''A''] ! 2 \<notin> set (drop (Suc 2) [''A'', ''B'', ''A'']) \<and>
   answers_in_order example_percent counting_ask ''exam'' True example_orchestrator
     [''A'', ''B'', ''A''] = [Some ''0'', Some ''1'', Some ''2''] \<and>
   card (dom (fst (batch_answer_questions example_percent counting_ask example_orchestrator
                     [''A'', ''B'', ''A''] ''exam'' True))) = 2 \<and>
   fst (batch_answer_questions example_percent counting_ask example_orchestrator
          [''A'', ''B'', ''A''] ''exam'' True) ''A'' = Some (Some ''2'')"
proof -
  have a: "answers_in_order example_percent counting_ask ''exam'' True example_orchestrator
     [''A'', ''B'', ''A''] = [Some ''0'', Some ''1'', Some ''2'']"
    by (simp add: answer_question_def counting_ask_def example_orchestrator_def
        counted_digits Let_def)
  have r: "length (remdups [''A'', ''B'', ''A'']) = 2" by simp
  have p1: "(2::nat) < length [''A'', ''B'', ''A'']" by simp
  have p2: "[''A'', ''B'', ''A''] ! 2 \<notin> set (drop (Suc 2) [''A'', ''B'', ''A''])" by simp
  have n2: "[''A'', ''B'', ''A''] ! 2 = ''A''" by simp
  have a2: "[Some ''0'', Some ''1'', Some ''2''] ! 2 = Some ''2''" by simp
  note t = batch_answer_questions_last_wins
      [of example_percent counting_ask example_orchestrator "[''A'', ''B'', ''A'']" "''exam''" True]
  from t have "card (dom (fst (batch_answer_questions example_percent counting_ask
                     example_orchestrator [''A'', ''B'', ''A''] ''exam'' True)))
                 = length (remdups [''A'', ''B'', ''A''])"
    by (elim conjE)
  then have c: "card (dom (fst (batch_answer_questions example_percent counting_ask
                     example_orchestrator [''A'', ''B'', ''A''] ''exam'' True))) = 2"
    by (simp only: r)
  from t have "\<forall>i<length [''A'', ''B'', ''A''].
      [''A'', ''B'', ''A''] ! i \<notin> set (drop (Suc i) [''A'', ''B'', ''A'']) \<longrightarrow>
      fst (batch_answer_questions example_percent counting_ask example_orchestrator
             [''A'', ''B'', ''A''] ''exam'' True) ([''A'', ''B'', ''A''] ! i) =
        Some (answers_in_order example_percent counting_ask ''exam'' True example_orchestrator
                [''A'', ''B'', ''A''] ! i)"
    by (elim conjE)
  with p1 p2 have "fst (batch_answer_questions example_percent counting_ask example_orchestrator
             [''A'', ''B'', ''A''] ''exam'' True) ([''A'', ''B'', ''A''] ! 2) =
        Some (answers_in_order example_percent counting_ask ''exam'' True example_orchestrator
                [''A'', ''B'', ''A''] ! 2)"
    by blast
  then have l: "fst (batch_answer_questions example_percent counting_ask example_orchestrator
             [''A'', ''B'', ''A''] ''exam'' True) ''A'' = Some (Some ''2'')"
    by (simp only: n2 a a2)
  from p1 p2 a c l show ?thesis by (intro conjI)
qed

end
